theory Spec2Isabelle
  imports Main "HOL-Library.Multiset"
begin

unbundle bit_operations_syntax

section \<open>Python values and failures\<close>

text \<open>
  The program is a single Python module, \<^verbatim>\<open>vis.py\<close>. Python integers are unbounded
  and are modelled by \<^typ>\<open>int\<close>; Python's \<^verbatim>\<open>%\<close> with the positive modulus 12 is
  the floored remainder, which is \<open>mod\<close> on \<^typ>\<open>int\<close>. Subscripting a dictionary or a
  list can raise; the two exceptions that the modelled code can raise are values of
  \<open>py_error\<close>, and a computation that can raise returns \<open>py_error + 'a\<close>.
\<close>

datatype py_error = KeyError | IndexError

text \<open>\<^verbatim>\<open>d[k]\<close> for a dictionary literal, given as its list of items.\<close>

definition dict_getitem :: "('k \<times> 'v) list \<Rightarrow> 'k \<Rightarrow> py_error + 'v" where
  "dict_getitem d k = (case map_of d k of None \<Rightarrow> Inl KeyError | Some v \<Rightarrow> Inr v)"

text \<open>
  \<^verbatim>\<open>xs[i]\<close> for a list of length \<open>len\<close>: the indices \<open>0\<close> to \<open>len - 1\<close> read
  from the front, the indices \<open>- len\<close> to \<open>- 1\<close> read from the back, every other
  index raises \<^verbatim>\<open>IndexError\<close>.
\<close>

definition list_getitem :: "'a list \<Rightarrow> int \<Rightarrow> py_error + 'a" where
  "list_getitem xs i =
     (if 0 \<le> i \<and> i < int (length xs) then Inr (xs ! nat i)
      else if - int (length xs) \<le> i \<and> i < 0 then Inr (xs ! nat (int (length xs) + i))
      else Inl IndexError)"

section \<open>The module's tables (lines 18 to 41)\<close>

definition NOTES :: "string list" where
  "NOTES = [''C'', ''G'', ''D'', ''A'', ''E'', ''B'', ''F#/Gb'', ''C#/Db'', ''G#/Ab'',
            ''D#/Eb'', ''A#/Bb'', ''F'']"

definition MIDI_TO_CIRCLE :: "(int \<times> int) list" where
  "MIDI_TO_CIRCLE = [(0, 0), (1, 7), (2, 2), (3, 9), (4, 4), (5, 11), (6, 6), (7, 1),
                     (8, 8), (9, 3), (10, 10), (11, 5)]"

definition MAJOR_SCALE :: "int list" where
  "MAJOR_SCALE = [0, 2, 4, 5, 7, 9, 11]"

definition NATURAL_MINOR_SCALE :: "int list" where
  "NATURAL_MINOR_SCALE = [0, 2, 3, 5, 7, 8, 10]"

definition HARMONIC_MINOR_SCALE :: "int list" where
  "HARMONIC_MINOR_SCALE = [0, 2, 3, 5, 7, 8, 11]"

definition PENTATONIC_SCALE :: "int list" where
  "PENTATONIC_SCALE = [0, 2, 4, 7, 9]"

text \<open>
  \<^verbatim>\<open>CHORD_TYPES\<close> is a dictionary keyed by tuples of integers. Its fifteen keys are
  pairwise different, so the list of items read by \<open>map_of\<close> is the dictionary.
\<close>

definition CHORD_TYPES :: "(int list \<times> string) list" where
  "CHORD_TYPES =
     [([0, 4, 7], ''Major''),
      ([0, 3, 7], ''Minor''),
      ([0, 4, 7, 10], ''Dominant 7th''),
      ([0, 3, 7, 10], ''Minor 7th''),
      ([0, 4, 7, 11], ''Major 7th''),
      ([0, 3, 6], ''Diminished''),
      ([0, 3, 6, 9], ''Diminished 7th''),
      ([0, 4, 8], ''Augmented''),
      ([0, 2, 7], ''Sus2''),
      ([0, 5, 7], ''Sus4''),
      ([0, 4, 7, 9], ''6th''),
      ([0, 3, 7, 9], ''Minor 6th''),
      ([0, 4, 7, 10, 14], ''9th''),
      ([0, 4, 7, 10, 14, 17], ''11th''),
      ([0, 4, 7, 10, 14, 17, 21], ''13th'')]"

text \<open>
  The expression \<^verbatim>\<open>NOTES[MIDI_TO_CIRCLE[n % 12]]\<close>: the name of a note on the
  circle of fifths. The source writes it out at lines 118, 242 to 243 and 253 to 254.
\<close>

definition note_name_of :: "int \<Rightarrow> py_error + string" where
  "note_name_of n =
     (case dict_getitem MIDI_TO_CIRCLE (n mod 12) of
        Inl e \<Rightarrow> Inl e
      | Inr note_index \<Rightarrow> list_getitem NOTES note_index)"

section \<open>Chord recognition (lines 110 to 119)\<close>

text \<open>
  \<^verbatim>\<open>pressed_notes\<close> is a Python set of integers. Line 115 feeds a generator over
  the set to \<^verbatim>\<open>sorted\<close>: one value per element of the set, in the set's iteration
  order, then sorted. The model enumerates the set in increasing order; lemma
  \<open>interval_tuple_any_order\<close> below shows that the enumeration order does not matter.
\<close>

definition interval_tuple :: "int set \<Rightarrow> int list" where
  "interval_tuple pressed_notes =
     (let root = Min pressed_notes
      in sort (map (\<lambda>note. (note - root) mod 12) (sorted_list_of_set pressed_notes)))"

text \<open>\<^verbatim>\<open>CHORD_TYPES.get(intervals, "Complex")\<close>, line 117.\<close>

definition chord_type_of :: "int list \<Rightarrow> string" where
  "chord_type_of intervals =
     (case map_of CHORD_TYPES intervals of Some t \<Rightarrow> t | None \<Rightarrow> ''Complex'')"

definition recognize_chord :: "int set \<Rightarrow> py_error + (string \<times> int \<times> string) option" where
  "recognize_chord pressed_notes =
     (if card pressed_notes < 3 then Inr None
      else
        let root = Min pressed_notes;
            intervals = interval_tuple pressed_notes;
            chord_type = chord_type_of intervals
        in case note_name_of root of
             Inl e \<Rightarrow> Inl e
           | Inr root_name \<Rightarrow>
               Inr (Some (root_name @ '' '' @ chord_type, root mod 12, chord_type)))"

text \<open>
  The interval tuple as step 3 of the specification words it: the sorted tuple of the
  set of values \<open>(note - root) mod 12\<close>, every value once. It is not part of the
  program; it is here to be compared with \<open>interval_tuple\<close>.
\<close>

definition interval_tuple_spec :: "int set \<Rightarrow> int list" where
  "interval_tuple_spec held_notes =
     sorted_list_of_set ((\<lambda>note. (note - Min held_notes) mod 12) ` held_notes)"

section \<open>Scales (lines 121 to 130)\<close>

definition get_scale :: "int \<Rightarrow> string \<Rightarrow> int list" where
  "get_scale root scale_type =
     (if scale_type = ''Major'' then
        map (\<lambda>interval. (root + interval) mod 12) MAJOR_SCALE
      else if scale_type = ''Natural Minor'' then
        map (\<lambda>interval. (root + interval) mod 12) NATURAL_MINOR_SCALE
      else if scale_type = ''Harmonic Minor'' then
        map (\<lambda>interval. (root + interval) mod 12) HARMONIC_MINOR_SCALE
      else if scale_type = ''Pentatonic'' then
        map (\<lambda>interval. (root + interval) mod 12) PENTATONIC_SCALE
      else [])"

section \<open>The MIDI event loop of main (lines 206 to 261)\<close>

text \<open>
  The variables of \<^verbatim>\<open>main\<close> that the MIDI branch reads and writes.
  \<^verbatim>\<open>active_sounds\<close> is a dictionary from notes to sound objects; the value stored
  under a note is always \<^verbatim>\<open>note_sounds[note]\<close>, so the dictionary is determined
  by its set of keys. \<^verbatim>\<open>note_sounds\<close> is built by \<^verbatim>\<open>generate_note_sounds\<close>
  with the keys \<^verbatim>\<open>range(128)\<close>.
\<close>

record engine =
  pressed_midi_notes :: "int set"
  pressed_circle_notes :: "string set"
  active_sounds :: "int set"
  scale_root :: "int option"

definition initial :: engine where
  "initial = \<lparr>pressed_midi_notes = {}, pressed_circle_notes = {}, active_sounds = {},
              scale_root = None\<rparr>"

text \<open>\<^verbatim>\<open>note_sounds[note]\<close>: the keys of \<^verbatim>\<open>note_sounds\<close> are 0 to 127.\<close>

definition note_sounds_getitem :: "int \<Rightarrow> py_error + int" where
  "note_sounds_getitem note = (if 0 \<le> note \<and> note < 128 then Inr note else Inl KeyError)"

text \<open>
  One MIDI event \<^verbatim>\<open>(status byte, note, velocity)\<close>, lines 236 to 261. An exception
  is not caught anywhere in \<^verbatim>\<open>main\<close>: it ends the program, so the result
  \<open>Inl e\<close> has no state. In the note-on branch the source first adds the note to
  \<^verbatim>\<open>pressed_midi_notes\<close> and its name to \<^verbatim>\<open>pressed_circle_notes\<close>, then looks the
  sound up, which can raise, then sets \<^verbatim>\<open>scale_root\<close>; the model decides on the
  raise first and builds the new state afterwards, which gives the same result because
  a raise leaves no state behind. The calls to \<^verbatim>\<open>play\<close>, \<^verbatim>\<open>stop\<close> and
  \<^verbatim>\<open>print\<close> change none of the four variables and are left out.
\<close>

definition handle_midi_event :: "engine \<Rightarrow> int \<times> int \<times> int \<Rightarrow> py_error + engine" where
  "handle_midi_event s event =
     (case event of (status_byte, note, velocity) \<Rightarrow>
        let status = status_byte AND 0xF0 in
        if status = 0x90 \<and> velocity > 0 then
          (case note_name_of note of
             Inl e \<Rightarrow> Inl e
           | Inr note_name \<Rightarrow>
               (case (if note \<notin> active_sounds s
                      then (case note_sounds_getitem note of
                              Inl e \<Rightarrow> Inl e
                            | Inr k \<Rightarrow> Inr (insert k (active_sounds s)))
                      else Inr (active_sounds s)) of
                  Inl e \<Rightarrow> Inl e
                | Inr sounds \<Rightarrow>
                    let pressed = insert note (pressed_midi_notes s) in
                    Inr \<lparr>pressed_midi_notes = pressed,
                         pressed_circle_notes = insert note_name (pressed_circle_notes s),
                         active_sounds = sounds,
                         scale_root = (if card pressed = 1 then Some (note mod 12)
                                       else scale_root s)\<rparr>))
        else if status = 0x80 \<or> (status = 0x90 \<and> velocity = 0) then
          (case note_name_of note of
             Inl e \<Rightarrow> Inl e
           | Inr note_name \<Rightarrow>
               let pressed = pressed_midi_notes s - {note} in
               Inr \<lparr>pressed_midi_notes = pressed,
                    pressed_circle_notes = pressed_circle_notes s - {note_name},
                    active_sounds = active_sounds s - {note},
                    scale_root = (if card pressed = 0 then None else scale_root s)\<rparr>)
        else Inr s)"

text \<open>The loop \<^verbatim>\<open>for event in midi_events\<close>, stopped by the first exception.\<close>

fun handle_midi_events :: "engine \<Rightarrow> (int \<times> int \<times> int) list \<Rightarrow> py_error + engine" where
  "handle_midi_events s [] = Inr s"
| "handle_midi_events s (event # events) =
     (case handle_midi_event s event of
        Inl e \<Rightarrow> Inl e
      | Inr s' \<Rightarrow> handle_midi_events s' events)"

text \<open>The states the loop can be in: those some run of events leads to from the start.\<close>

inductive reachable :: "engine \<Rightarrow> bool" where
  start: "reachable initial"
| step: "reachable s \<Longrightarrow> handle_midi_event s event = Inr s' \<Longrightarrow> reachable s'"

text \<open>
  What every reachable state satisfies: the held notes are finitely many and lie in
  0 to 127, a sound is playing for exactly the held notes, and the scale root is unset
  exactly when no note is held.
\<close>

definition tracker_invariant :: "engine \<Rightarrow> bool" where
  "tracker_invariant s =
     (finite (pressed_midi_notes s) \<and>
      active_sounds s = pressed_midi_notes s \<and>
      pressed_midi_notes s \<subseteq> {0..127} \<and>
      ((scale_root s = None) = (pressed_midi_notes s = {})))"

section \<open>Pitch classes and note names\<close>

lemma mod12_cases: "(n::int) mod 12 \<in> {0, 1, 2, 3, 4, 5, 6, 7, 8, 9, 10, 11}"
proof -
  have "0 \<le> n mod 12" and "n mod 12 < 12" by simp_all
  then show ?thesis by simp presburger
qed

lemma pitch_classes: "{0..11::int} = {0, 1, 2, 3, 4, 5, 6, 7, 8, 9, 10, 11}"
proof (rule set_eqI)
  fix x :: int
  show "(x \<in> {0..11}) = (x \<in> {0, 1, 2, 3, 4, 5, 6, 7, 8, 9, 10, 11})"
    by simp presburger
qed

lemma note_name_of_mod: "note_name_of (n mod 12) = note_name_of n"
  by (simp add: note_name_of_def)

lemma note_name_of_pitch_class:
  assumes "pc \<in> {0, 1, 2, 3, 4, 5, 6, 7, 8, 9, 10, 11}"
  shows "\<exists>name. note_name_of pc = Inr name"
  using assms
  by (elim insertE emptyE;
      simp add: note_name_of_def dict_getitem_def list_getitem_def MIDI_TO_CIRCLE_def NOTES_def)

lemma note_name_of_total: "\<exists>name. note_name_of n = Inr name"
  using note_name_of_pitch_class [OF mod12_cases [of n]]
  by (simp only: note_name_of_mod)

lemma recognize_chord_eq:
  assumes "note_name_of (Min S) = Inr root_name"
  shows "recognize_chord S =
    Inr (if card S < 3 then None
         else Some (root_name @ '' '' @ chord_type_of (interval_tuple S), Min S mod 12,
                    chord_type_of (interval_tuple S)))"
  using assms by (simp add: recognize_chord_def Let_def)

lemma mod12_bounds: "0 \<le> (n::int) mod 12 \<and> n mod 12 \<le> 11"
proof -
  have "n mod 12 < 12" by simp
  then show ?thesis by simp
qed

section \<open>The interval tuple and the chord table\<close>

text \<open>
  Python does not fix the order in which a set is iterated. \<^verbatim>\<open>sorted\<close> makes the
  tuple of line 115 independent of it: sorting the values over any enumeration of the
  set without repetition gives what \<open>interval_tuple\<close> computes.
\<close>

lemma mset_enumeration: "finite S \<Longrightarrow> mset (sorted_list_of_set S) = mset_set S"
  using mset_set_set [of "sorted_list_of_set S"] by simp

lemma interval_tuple_any_order:
  assumes "distinct xs" and "set xs = S"
  shows "sort (map f xs) = sort (map f (sorted_list_of_set S))"
proof -
  have "finite S" using assms by auto
  have "mset xs = mset_set S"
    using assms by (simp add: mset_set_set [symmetric])
  also have "\<dots> = mset (sorted_list_of_set S)"
    using \<open>finite S\<close> by (simp add: mset_enumeration)
  finally have "mset (map f xs) = mset (map f (sorted_list_of_set S))"
    by simp
  then show ?thesis
    by (simp add: properties_for_sort)
qed

lemma interval_tuple_set:
  "finite S \<Longrightarrow> set (interval_tuple S) = (\<lambda>n. (n - Min S) mod 12) ` S"
  by (simp add: interval_tuple_def)

lemma interval_tuple_sorted: "sorted (interval_tuple S)"
  by (simp add: interval_tuple_def)

lemma interval_tuple_length: "finite S \<Longrightarrow> length (interval_tuple S) = card S"
  by (simp add: interval_tuple_def)

lemma interval_tuple_range: "x \<in> set (interval_tuple S) \<Longrightarrow> 0 \<le> x \<and> x \<le> 11"
  by (auto simp: interval_tuple_def mod12_bounds)

lemma interval_tuple_mset:
  "finite S \<Longrightarrow> mset (interval_tuple S) = image_mset (\<lambda>n. (n - Min S) mod 12) (mset_set S)"
  by (simp add: interval_tuple_def mset_enumeration)

lemma interval_tuple_distinct:
  "finite S \<Longrightarrow> distinct (interval_tuple S) = inj_on (\<lambda>n. (n - Min S) mod 12) S"
  by (simp add: interval_tuple_def distinct_map)

lemma shifted_inj_on: "inj_on (\<lambda>n::int. (n - r) mod 12) S = inj_on (\<lambda>n. n mod 12) S"
  by (simp add: inj_on_def mod_eq_dvd_iff)

lemma remdups_interval_tuple:
  assumes "finite S"
  shows "remdups (interval_tuple S) = interval_tuple_spec S"
proof -
  have "sorted_list_of_set (set (remdups (interval_tuple S))) = remdups (interval_tuple S)"
    by (rule sorted_list_of_set.idem_if_sorted_distinct)
       (simp_all add: interval_tuple_sorted)
  then show ?thesis
    using assms by (simp add: interval_tuple_spec_def interval_tuple_set)
qed

lemma interval_tuple_eq_spec:
  assumes "finite S"
  shows "(interval_tuple S = interval_tuple_spec S) = inj_on (\<lambda>n. n mod 12) S"
proof -
  have "(remdups (interval_tuple S) = interval_tuple S) = distinct (interval_tuple S)"
    by simp
  then have "(interval_tuple S = interval_tuple_spec S) = distinct (interval_tuple S)"
    using assms by (auto simp: remdups_interval_tuple)
  then show ?thesis
    using assms by (simp add: interval_tuple_distinct shifted_inj_on)
qed

lemma catalog_keys_distinct:
  assumes "map_of CHORD_TYPES xs = Some t"
  shows "distinct xs"
proof -
  have "(xs, t) \<in> set CHORD_TYPES"
    using assms by (rule map_of_SomeD)
  moreover have "\<forall>(k, v) \<in> set CHORD_TYPES. distinct k"
    by (simp add: CHORD_TYPES_def)
  ultimately show ?thesis by blast
qed

lemma catalog_extended_keys:
  assumes "map_of CHORD_TYPES xs = Some t" and "t \<in> {''9th'', ''11th'', ''13th''}"
  shows "14 \<in> set xs"
proof -
  have "(xs, t) \<in> set CHORD_TYPES"
    using assms(1) by (rule map_of_SomeD)
  moreover have "\<forall>(k, v) \<in> set CHORD_TYPES. v \<in> {''9th'', ''11th'', ''13th''} \<longrightarrow> 14 \<in> set k"
    by (simp add: CHORD_TYPES_def)
  ultimately show ?thesis using assms(2) by blast
qed

section \<open>The event handler, branch by branch\<close>

lemma handle_note_on:
  assumes "status_byte AND 0xF0 = 0x90" and "velocity > 0"
    and "note_name_of n = Inr note_name"
  shows "handle_midi_event s (status_byte, n, velocity) =
    (if n \<notin> active_sounds s \<and> \<not> (0 \<le> n \<and> n < 128) then Inl KeyError
     else Inr \<lparr>pressed_midi_notes = insert n (pressed_midi_notes s),
               pressed_circle_notes = insert note_name (pressed_circle_notes s),
               active_sounds = insert n (active_sounds s),
               scale_root = (if card (insert n (pressed_midi_notes s)) = 1
                             then Some (n mod 12) else scale_root s)\<rparr>)"
  using assms
  by (auto simp: handle_midi_event_def note_sounds_getitem_def Let_def insert_absorb)

lemma handle_note_off:
  assumes "status_byte AND 0xF0 = 0x80 \<or> (status_byte AND 0xF0 = 0x90 \<and> velocity = 0)"
    and "note_name_of n = Inr note_name"
  shows "handle_midi_event s (status_byte, n, velocity) =
     Inr \<lparr>pressed_midi_notes = pressed_midi_notes s - {n},
          pressed_circle_notes = pressed_circle_notes s - {note_name},
          active_sounds = active_sounds s - {n},
          scale_root = (if card (pressed_midi_notes s - {n}) = 0 then None
                        else scale_root s)\<rparr>"
  using assms
  by (auto simp: handle_midi_event_def Let_def)

lemma handle_other:
  assumes "\<not> (status_byte AND 0xF0 = 0x90 \<and> velocity > 0)"
    and "\<not> (status_byte AND 0xF0 = 0x80 \<or> (status_byte AND 0xF0 = 0x90 \<and> velocity = 0))"
  shows "handle_midi_event s (status_byte, n, velocity) = Inr s"
  using assms
  by (auto simp: handle_midi_event_def Let_def)

lemma invariant_initial: "tracker_invariant initial"
  by (simp add: tracker_invariant_def initial_def)

lemma invariant_step:
  assumes "tracker_invariant s" and "handle_midi_event s event = Inr s'"
  shows "tracker_invariant s'"
proof -
  obtain status_byte n velocity where e: "event = (status_byte, n, velocity)"
    by (cases event) auto
  obtain note_name where nm: "note_name_of n = Inr note_name"
    using note_name_of_total by blast
  consider (on) "status_byte AND 0xF0 = 0x90 \<and> velocity > 0"
    | (off) "status_byte AND 0xF0 = 0x80 \<or> (status_byte AND 0xF0 = 0x90 \<and> velocity = 0)"
    | (other) "\<not> (status_byte AND 0xF0 = 0x90 \<and> velocity > 0)"
        "\<not> (status_byte AND 0xF0 = 0x80 \<or> (status_byte AND 0xF0 = 0x90 \<and> velocity = 0))"
    by blast
  then show ?thesis
  proof cases
    case on
    then have "handle_midi_event s (status_byte, n, velocity) =
      (if n \<notin> active_sounds s \<and> \<not> (0 \<le> n \<and> n < 128) then Inl KeyError
       else Inr \<lparr>pressed_midi_notes = insert n (pressed_midi_notes s),
               pressed_circle_notes = insert note_name (pressed_circle_notes s),
               active_sounds = insert n (active_sounds s),
               scale_root = (if card (insert n (pressed_midi_notes s)) = 1
                             then Some (n mod 12) else scale_root s)\<rparr>)"
      using nm by (simp add: handle_note_on)
    with assms e show ?thesis
      by (auto simp: tracker_invariant_def split: if_splits)
  next
    case off
    then have "handle_midi_event s (status_byte, n, velocity) =
      Inr \<lparr>pressed_midi_notes = pressed_midi_notes s - {n},
          pressed_circle_notes = pressed_circle_notes s - {note_name},
          active_sounds = active_sounds s - {n},
          scale_root = (if card (pressed_midi_notes s - {n}) = 0 then None
                        else scale_root s)\<rparr>"
      using nm by (rule handle_note_off)
    with assms e show ?thesis
      by (auto simp: tracker_invariant_def split: if_splits)
  next
    case other
    then have "handle_midi_event s (status_byte, n, velocity) = Inr s"
      by (rule handle_other)
    with assms e show ?thesis by simp
  qed
qed

lemma reachable_invariant: "reachable s \<Longrightarrow> tracker_invariant s"
  by (induction rule: reachable.induct) (auto intro: invariant_initial invariant_step)

lemma reachable_run:
  "reachable s \<Longrightarrow> handle_midi_events s events = Inr s' \<Longrightarrow> reachable s'"
proof (induction events arbitrary: s)
  case Nil
  then show ?case by simp
next
  case (Cons event events)
  then show ?case
    by (auto split: sum.splits intro: reachable.step)
qed

section \<open>The circle-of-fifths table\<close>

text \<open>
  Claim C9. The fixed table \<^verbatim>\<open>MIDI_TO_CIRCLE\<close> is a bijection on the pitch classes
  0 to 11: looking up two different pitch classes never gives the same answer, every
  lookup of a pitch class succeeds, and the circle indices obtained are exactly 0 to 11.
\<close>

theorem MIDI_TO_CIRCLE_bijection:
  "inj_on (dict_getitem MIDI_TO_CIRCLE) {0..11} \<and>
   dict_getitem MIDI_TO_CIRCLE ` {0..11} = Inr ` {0..11}"
proof
  show "inj_on (dict_getitem MIDI_TO_CIRCLE) {0..11}"
    by (simp add: pitch_classes dict_getitem_def MIDI_TO_CIRCLE_def)
  have "dict_getitem MIDI_TO_CIRCLE ` {0, 1, 2, 3, 4, 5, 6, 7, 8, 9, 10, 11}
        = {Inr 0, Inr 7, Inr 2, Inr 9, Inr 4, Inr 11, Inr 6, Inr 1, Inr 8, Inr 3, Inr 10, Inr 5}"
    by (simp add: dict_getitem_def MIDI_TO_CIRCLE_def)
  also have "\<dots> = Inr ` {0, 1, 2, 3, 4, 5, 6, 7, 8, 9, 10, 11}"
    by (simp add: insert_commute)
  finally show "dict_getitem MIDI_TO_CIRCLE ` {0..11} = Inr ` {0..11}"
    by (simp only: pitch_classes)
qed

section \<open>Scale members\<close>

lemma get_scale_range: "x \<in> set (get_scale root scale_type) \<Longrightarrow> 0 \<le> x \<and> x \<le> 11"
  by (auto simp: get_scale_def mod12_bounds split: if_splits)

lemma get_scale_length:
  "length (get_scale root ''Major'') = length MAJOR_SCALE"
  "length (get_scale root ''Natural Minor'') = length NATURAL_MINOR_SCALE"
  "length (get_scale root ''Harmonic Minor'') = length HARMONIC_MINOR_SCALE"
  "length (get_scale root ''Pentatonic'') = length PENTATONIC_SCALE"
  by (simp_all add: get_scale_def)

lemma pattern_lengths:
  "length MAJOR_SCALE = 7" "length NATURAL_MINOR_SCALE = 7"
  "length HARMONIC_MINOR_SCALE = 7" "length PENTATONIC_SCALE = 5"
  by (simp_all add: MAJOR_SCALE_def NATURAL_MINOR_SCALE_def HARMONIC_MINOR_SCALE_def
      PENTATONIC_SCALE_def)

text \<open>
  Claim C10. For every integer root and each of the four scale names that
  \<^verbatim>\<open>get_scale\<close> knows, every member of the returned list lies between 0 and 11,
  and the list is as long as the selected pattern: 7 for Major, Natural Minor and
  Harmonic Minor, 5 for Pentatonic.
\<close>

theorem get_scale_range_length:
  assumes "scale_type \<in> {''Major'', ''Natural Minor'', ''Harmonic Minor'', ''Pentatonic''}"
  shows "(\<forall>x \<in> set (get_scale root scale_type). 0 \<le> x \<and> x \<le> 11) \<and>
         length (get_scale root scale_type) = (if scale_type = ''Pentatonic'' then 5 else 7)"
proof
  show "\<forall>x \<in> set (get_scale root scale_type). 0 \<le> x \<and> x \<le> 11"
    using get_scale_range by blast
  show "length (get_scale root scale_type) = (if scale_type = ''Pentatonic'' then 5 else 7)"
    using assms by (elim insertE emptyE) (simp_all add: get_scale_length pattern_lengths)
qed

theorem get_scale_range_length_witness:
  "''Pentatonic'' \<in> {''Major'', ''Natural Minor'', ''Harmonic Minor'', ''Pentatonic''} \<and>
   get_scale (- 3) ''Pentatonic'' = [9, 11, 1, 4, 6] \<and>
   list_all (\<lambda>x. 0 \<le> x \<and> x \<le> 11) (get_scale (- 3) ''Pentatonic'') \<and>
   length (get_scale (- 3) ''Pentatonic'') = 5"
proof -
  have m: "''Pentatonic'' \<in> {''Major'', ''Natural Minor'', ''Harmonic Minor'', ''Pentatonic''}"
    by simp
  have v: "get_scale (- 3) ''Pentatonic'' = [9, 11, 1, 4, 6]"
    by (simp add: get_scale_def PENTATONIC_SCALE_def)
  from get_scale_range_length [OF m, of "- 3"] m v show ?thesis
    by (simp only: list_all_iff) simp
qed

section \<open>Chord recognition: the interval tuple\<close>

text \<open>
  Claim C1 says that the interval tuple is sorted and deduplicated, so that the held
  notes 60, 64, 67, 72 give the tuple (0, 4, 7). The program sorts one value per held
  note and removes nothing: the two notes an octave apart give 0 twice, the tuple is
  (0, 0, 4, 7), no key of the chord table equals it, and the chord type is Complex.
\<close>

theorem interval_tuple_dedup_counterexample:
  "3 \<le> card {60, 64, 67, 72 :: int} \<and>
   interval_tuple {60, 64, 67, 72} = [0, 0, 4, 7] \<and>
   interval_tuple_spec {60, 64, 67, 72} = [0, 4, 7] \<and>
   interval_tuple {60, 64, 67, 72} \<noteq> interval_tuple_spec {60, 64, 67, 72} \<and>
   map_of CHORD_TYPES [0, 4, 7] = Some ''Major'' \<and>
   recognize_chord {60, 64, 67, 72} = Inr (Some (''C Complex'', 0, ''Complex''))"
proof -
  have a: "3 \<le> card {60, 64, 67, 72 :: int}" by simp
  have b: "interval_tuple {60, 64, 67, 72} = [0, 0, 4, 7]" by code_simp
  have c: "interval_tuple_spec {60, 64, 67, 72} = [0, 4, 7]" by code_simp
  have d: "map_of CHORD_TYPES [0, 4, 7] = Some ''Major''" by (simp add: CHORD_TYPES_def)
  have e: "recognize_chord {60, 64, 67, 72} = Inr (Some (''C Complex'', 0, ''Complex''))"
    by code_simp
  show ?thesis by (simp only: a b c d e) simp
qed

text \<open>
  Claim C1, amended. For every set of at least 3 held notes the interval tuple is the
  sorted tuple of \<open>(note - root) mod 12\<close> with one entry per held note (the root is the
  lowest note and contributes 0). Removing its repetitions gives the deduplicated tuple
  of the specification, and the two tuples are equal exactly when no two held notes
  have the same pitch class. The result names the root by the lowest note. When no two
  held notes share a pitch class, a set whose deduplicated tuple is a key of the chord
  table is recognized with that key's chord type, and one whose tuple is no key is
  Complex. When two held notes do share a pitch class, the tuple has a repeated entry,
  matches no key of the chord table, and the chord type is Complex.
\<close>

theorem interval_tuple_keeps_repeats:
  assumes "3 \<le> card S"
  shows "sorted (interval_tuple S) \<and>
         mset (interval_tuple S) = image_mset (\<lambda>note. (note - Min S) mod 12) (mset_set S) \<and>
         length (interval_tuple S) = card S \<and>
         remdups (interval_tuple S) = interval_tuple_spec S \<and>
         (interval_tuple S = interval_tuple_spec S) = inj_on (\<lambda>note. note mod 12) S \<and>
         (\<exists>root_name.
            note_name_of (Min S) = Inr root_name \<and>
            (\<not> inj_on (\<lambda>note. note mod 12) S \<longrightarrow>
               recognize_chord S =
                 Inr (Some (root_name @ '' Complex'', Min S mod 12, ''Complex''))) \<and>
            (\<forall>t. inj_on (\<lambda>note. note mod 12) S \<longrightarrow>
               map_of CHORD_TYPES (interval_tuple_spec S) = Some t \<longrightarrow>
               recognize_chord S = Inr (Some (root_name @ '' '' @ t, Min S mod 12, t))) \<and>
            (inj_on (\<lambda>note. note mod 12) S \<longrightarrow>
               map_of CHORD_TYPES (interval_tuple_spec S) = None \<longrightarrow>
               recognize_chord S =
                 Inr (Some (root_name @ '' Complex'', Min S mod 12, ''Complex''))))"
proof -
  have fin: "finite S"
    using assms by (cases "finite S") simp_all
  obtain root_name where nm: "note_name_of (Min S) = Inr root_name"
    using note_name_of_total by blast
  have result: "recognize_chord S =
      Inr (Some (root_name @ '' '' @ chord_type_of (interval_tuple S), Min S mod 12,
                 chord_type_of (interval_tuple S)))"
    using assms by (simp add: recognize_chord_eq [OF nm])
  have doubled: "recognize_chord S =
      Inr (Some (root_name @ '' Complex'', Min S mod 12, ''Complex''))"
    if "\<not> inj_on (\<lambda>note. note mod 12) S"
  proof -
    have "\<not> distinct (interval_tuple S)"
      using that fin by (simp add: interval_tuple_distinct shifted_inj_on)
    then have "map_of CHORD_TYPES (interval_tuple S) = None"
      using catalog_keys_distinct [of "interval_tuple S"]
      by (cases "map_of CHORD_TYPES (interval_tuple S)") auto
    then have "chord_type_of (interval_tuple S) = ''Complex''"
      by (simp add: chord_type_of_def)
    then show ?thesis using result by simp
  qed
  have matched: "recognize_chord S = Inr (Some (root_name @ '' '' @ t, Min S mod 12, t))"
    if "inj_on (\<lambda>note. note mod 12) S"
      and "map_of CHORD_TYPES (interval_tuple_spec S) = Some t" for t
  proof -
    have "interval_tuple S = interval_tuple_spec S"
      using that(1) fin by (simp add: interval_tuple_eq_spec)
    then have "chord_type_of (interval_tuple S) = t"
      using that(2) by (simp add: chord_type_of_def)
    then show ?thesis using result by simp
  qed
  have unmatched: "recognize_chord S =
      Inr (Some (root_name @ '' Complex'', Min S mod 12, ''Complex''))"
    if "inj_on (\<lambda>note. note mod 12) S"
      and "map_of CHORD_TYPES (interval_tuple_spec S) = None"
  proof -
    have "interval_tuple S = interval_tuple_spec S"
      using that(1) fin by (simp add: interval_tuple_eq_spec)
    then have "chord_type_of (interval_tuple S) = ''Complex''"
      using that(2) by (simp add: chord_type_of_def)
    then show ?thesis using result by simp
  qed
  have recognition: "\<exists>root_name.
            note_name_of (Min S) = Inr root_name \<and>
            (\<not> inj_on (\<lambda>note. note mod 12) S \<longrightarrow>
               recognize_chord S =
                 Inr (Some (root_name @ '' Complex'', Min S mod 12, ''Complex''))) \<and>
            (\<forall>t. inj_on (\<lambda>note. note mod 12) S \<longrightarrow>
               map_of CHORD_TYPES (interval_tuple_spec S) = Some t \<longrightarrow>
               recognize_chord S = Inr (Some (root_name @ '' '' @ t, Min S mod 12, t))) \<and>
            (inj_on (\<lambda>note. note mod 12) S \<longrightarrow>
               map_of CHORD_TYPES (interval_tuple_spec S) = None \<longrightarrow>
               recognize_chord S =
                 Inr (Some (root_name @ '' Complex'', Min S mod 12, ''Complex'')))"
    using nm doubled matched unmatched by (intro exI [of _ root_name]) simp
  show ?thesis
    using fin recognition
    by (simp add: interval_tuple_sorted interval_tuple_mset interval_tuple_length
        remdups_interval_tuple interval_tuple_eq_spec)
qed

theorem interval_tuple_keeps_repeats_witness:
  "3 \<le> card {60, 64, 67, 72 :: int} \<and>
   length (interval_tuple {60, 64, 67, 72}) = 4 \<and>
   remdups (interval_tuple {60, 64, 67, 72}) = [0, 4, 7] \<and>
   \<not> inj_on (\<lambda>note. note mod 12) {60, 64, 67, 72 :: int} \<and>
   recognize_chord {60, 64, 67, 72} = Inr (Some (''C Complex'', 0, ''Complex'')) \<and>
   3 \<le> card {60, 64, 79 :: int} \<and>
   inj_on (\<lambda>note. note mod 12) {60, 64, 79 :: int} \<and>
   map_of CHORD_TYPES (interval_tuple_spec {60, 64, 79}) = Some ''Major'' \<and>
   recognize_chord {60, 64, 79} = Inr (Some (''C Major'', 0, ''Major''))"
proof -
  have a: "3 \<le> card {60, 64, 67, 72 :: int}" by simp
  have c: "interval_tuple_spec {60, 64, 67, 72} = [0, 4, 7]" by code_simp
  have i: "\<not> inj_on (\<lambda>note. note mod 12) {60, 64, 67, 72 :: int}" by simp
  have name: "note_name_of 60 = Inr ''C''" by code_simp
  have m1: "Min {60, 64, 67, 72 :: int} = 60" by simp
  have a': "3 \<le> card {60, 64, 79 :: int}" by simp
  have i': "inj_on (\<lambda>note. note mod 12) {60, 64, 79 :: int}" by simp
  have t': "map_of CHORD_TYPES (interval_tuple_spec {60, 64, 79}) = Some ''Major''"
    by code_simp
  have m2: "Min {60, 64, 79 :: int} = 60" by simp
  from interval_tuple_keeps_repeats [OF a] c i name
  have doubled: "length (interval_tuple {60, 64, 67, 72}) = 4 \<and>
     remdups (interval_tuple {60, 64, 67, 72}) = [0, 4, 7] \<and>
     recognize_chord {60, 64, 67, 72} = Inr (Some (''C Complex'', 0, ''Complex''))"
    by (simp only: m1) auto
  from interval_tuple_keeps_repeats [OF a'] i' t' name
  have plain: "recognize_chord {60, 64, 79} = Inr (Some (''C Major'', 0, ''Major''))"
    by (simp only: m2) auto
  show ?thesis using a i a' i' t' doubled plain by blast
qed

section \<open>Chord recognition: the result\<close>

text \<open>
  Claim C3. The chord table's entries for 9th, 11th and 13th have the keys
  (0, 4, 7, 10, 14), (0, 4, 7, 10, 14, 17) and (0, 4, 7, 10, 14, 17, 21), which contain
  offsets above 11. Every element of the interval tuple that \<^verbatim>\<open>recognize_chord\<close>
  computes lies between 0 and 11. So for every set of held notes the chord type
  returned is never 9th, 11th or 13th.
\<close>

theorem extended_chords_never_recognized:
  "map_of CHORD_TYPES [0, 4, 7, 10, 14] = Some ''9th'' \<and>
   map_of CHORD_TYPES [0, 4, 7, 10, 14, 17] = Some ''11th'' \<and>
   map_of CHORD_TYPES [0, 4, 7, 10, 14, 17, 21] = Some ''13th'' \<and>
   (\<forall>x \<in> set (interval_tuple S). 0 \<le> x \<and> x \<le> 11) \<and>
   (\<forall>label root chord_type.
      recognize_chord S = Inr (Some (label, root, chord_type)) \<longrightarrow>
      chord_type \<notin> {''9th'', ''11th'', ''13th''})"
proof -
  have range: "\<forall>x \<in> set (interval_tuple S). 0 \<le> x \<and> x \<le> 11"
    using interval_tuple_range by blast
  have not_extended: "chord_type_of (interval_tuple S) \<notin> {''9th'', ''11th'', ''13th''}"
  proof (cases "map_of CHORD_TYPES (interval_tuple S)")
    case None
    then show ?thesis by (simp add: chord_type_of_def)
  next
    case (Some t)
    show ?thesis
    proof
      assume "chord_type_of (interval_tuple S) \<in> {''9th'', ''11th'', ''13th''}"
      then have "t \<in> {''9th'', ''11th'', ''13th''}"
        using Some by (simp add: chord_type_of_def)
      then have "14 \<in> set (interval_tuple S)"
        using Some catalog_extended_keys by blast
      then show False
        using range by fastforce
    qed
  qed
  have never: "chord_type \<notin> {''9th'', ''11th'', ''13th''}"
    if "recognize_chord S = Inr (Some (label, root, chord_type))" for label root chord_type
  proof -
    obtain root_name where "note_name_of (Min S) = Inr root_name"
      using note_name_of_total by blast
    then have "chord_type = chord_type_of (interval_tuple S)"
      using that by (simp add: recognize_chord_eq split: if_splits)
    then show ?thesis using not_extended by simp
  qed
  have keys: "map_of CHORD_TYPES [0, 4, 7, 10, 14] = Some ''9th''"
    "map_of CHORD_TYPES [0, 4, 7, 10, 14, 17] = Some ''11th''"
    "map_of CHORD_TYPES [0, 4, 7, 10, 14, 17, 21] = Some ''13th''"
    by (simp_all add: CHORD_TYPES_def)
  show ?thesis
    using keys range never by blast
qed

theorem extended_chords_never_recognized_witness:
  "recognize_chord {60, 64, 67, 70, 74} = Inr (Some (''C Complex'', 0, ''Complex'')) \<and>
   interval_tuple {60, 64, 67, 70, 74} = [0, 2, 4, 7, 10] \<and>
   list_all (\<lambda>x. 0 \<le> x \<and> x \<le> 11) (interval_tuple {60, 64, 67, 70, 74}) \<and>
   ''Complex'' \<notin> {''9th'', ''11th'', ''13th''}"
proof -
  have r: "recognize_chord {60, 64, 67, 70, 74} = Inr (Some (''C Complex'', 0, ''Complex''))"
    by code_simp
  have t: "interval_tuple {60, 64, 67, 70, 74} = [0, 2, 4, 7, 10]"
    by code_simp
  from extended_chords_never_recognized [of "{60, 64, 67, 70, 74}"] r
  have "''Complex'' \<notin> {''9th'', ''11th'', ''13th''}"
    by blast
  moreover from extended_chords_never_recognized [of "{60, 64, 67, 70, 74}"]
  have "list_all (\<lambda>x. 0 \<le> x \<and> x \<le> 11) (interval_tuple {60, 64, 67, 70, 74})"
    by (simp only: list_all_iff) blast
  ultimately show ?thesis using r t by blast
qed

text \<open>
  Claim C6. \<^verbatim>\<open>recognize_chord\<close> returns \<^verbatim>\<open>None\<close> exactly when fewer than 3
  notes are held. For 3 or more held notes it returns a label, a root and a chord
  type: the root is the pitch class of the lowest held note, the label is the root's
  name, a space and the chord type, and the chord type is Complex when the interval
  tuple is not a key of the chord table.
\<close>

theorem recognize_chord_threshold:
  "(recognize_chord S = Inr None) = (card S < 3) \<and>
   (3 \<le> card S \<longrightarrow>
      (\<exists>root_name chord_type.
         note_name_of (Min S) = Inr root_name \<and>
         recognize_chord S =
           Inr (Some (root_name @ '' '' @ chord_type, Min S mod 12, chord_type)) \<and>
         (map_of CHORD_TYPES (interval_tuple S) = None \<longrightarrow> chord_type = ''Complex'')))"
proof (intro conjI impI)
  obtain root_name where n: "note_name_of (Min S) = Inr root_name"
    using note_name_of_total by blast
  show "(recognize_chord S = Inr None) = (card S < 3)"
    by (simp add: recognize_chord_eq [OF n])
  assume big: "3 \<le> card S"
  let ?t = "chord_type_of (interval_tuple S)"
  have "recognize_chord S = Inr (Some (root_name @ '' '' @ ?t, Min S mod 12, ?t))"
    using big by (simp add: recognize_chord_eq [OF n])
  moreover have "map_of CHORD_TYPES (interval_tuple S) = None \<longrightarrow> ?t = ''Complex''"
    by (simp add: chord_type_of_def)
  ultimately show "\<exists>root_name chord_type.
         note_name_of (Min S) = Inr root_name \<and>
         recognize_chord S =
           Inr (Some (root_name @ '' '' @ chord_type, Min S mod 12, chord_type)) \<and>
         (map_of CHORD_TYPES (interval_tuple S) = None \<longrightarrow> chord_type = ''Complex'')"
    using n by (intro exI [of _ root_name] exI [of _ ?t]) simp
qed

theorem recognize_chord_threshold_witness:
  "3 \<le> card {60, 61, 62 :: int} \<and>
   map_of CHORD_TYPES (interval_tuple {60, 61, 62}) = None \<and>
   recognize_chord {60, 61, 62} \<noteq> Inr None \<and>
   (\<exists>root_name. note_name_of 60 = Inr root_name \<and>
      recognize_chord {60, 61, 62} = Inr (Some (root_name @ '' Complex'', 0, ''Complex''))) \<and>
   card {60, 64 :: int} < 3 \<and>
   recognize_chord {60, 64} = Inr None"
proof -
  have c: "3 \<le> card {60, 61, 62 :: int}" by simp
  have m: "map_of CHORD_TYPES (interval_tuple {60, 61, 62}) = None" by code_simp
  have d: "card {60, 64 :: int} < 3" by simp
  have mn: "Min {60, 61, 62 :: int} = 60" by simp
  from recognize_chord_threshold [of "{60, 61, 62}"] c m
  have "recognize_chord {60, 61, 62} \<noteq> Inr None \<and>
   (\<exists>root_name. note_name_of 60 = Inr root_name \<and>
      recognize_chord {60, 61, 62} = Inr (Some (root_name @ '' Complex'', 0, ''Complex'')))"
    by (simp only: mn) auto
  moreover from recognize_chord_threshold [of "{60, 64}"] d
  have "recognize_chord {60, 64} = Inr None" by blast
  ultimately show ?thesis using c m d by blast
qed

text \<open>
  Claim C7 says that the held notes 61, 64, 68 give the label text "C# Minor". The name
  that \<^verbatim>\<open>NOTES\<close> has for pitch class 1 is "C#/Db", so that label is not what the
  program returns.
\<close>

theorem recognize_c_sharp_minor_counterexample:
  "recognize_chord {61, 64, 68} \<noteq> Inr (Some (''C# Minor'', 1, ''Minor''))"
  by code_simp


text \<open>
  Claim C7, amended. For the held notes 61, 64, 68 the root is pitch class 1, the
  interval tuple is (0, 3, 7), the chord type is Minor, and the label text is
  "C#/Db Minor".
\<close>

theorem recognize_c_sharp_minor:
  "Min {61, 64, 68 :: int} mod 12 = 1 \<and>
   interval_tuple {61, 64, 68} = [0, 3, 7] \<and>
   note_name_of 61 = Inr ''C#/Db'' \<and>
   recognize_chord {61, 64, 68} = Inr (Some (''C#/Db Minor'', 1, ''Minor''))"
proof -
  have a: "Min {61, 64, 68 :: int} mod 12 = 1" by simp
  have b: "interval_tuple {61, 64, 68} = [0, 3, 7]" by code_simp
  have c: "note_name_of 61 = Inr ''C#/Db''" by code_simp
  have d: "recognize_chord {61, 64, 68} = Inr (Some (''C#/Db Minor'', 1, ''Minor''))"
    by code_simp
  show ?thesis using a b c d by blast
qed

section \<open>Scale names outside the four\<close>

text \<open>
  Claim C4 says that \<^verbatim>\<open>get_scale\<close> fails on a scale name outside Major, Natural
  Minor, Harmonic Minor and Pentatonic. The function has no failing branch: its last
  line returns the empty list, as for the name Dorian here.
\<close>

theorem get_scale_unknown_name_counterexample:
  "''Dorian'' \<notin> {''Major'', ''Natural Minor'', ''Harmonic Minor'', ''Pentatonic''} \<and>
   get_scale 0 ''Dorian'' = []"
  by (simp add: get_scale_def)


text \<open>
  Claim C4, amended. For every root, \<^verbatim>\<open>get_scale\<close> returns the empty list, and no
  error, for a scale name outside the four names, and it returns the empty list for
  no other scale name.
\<close>

theorem get_scale_empty_iff_unknown_name:
  "(get_scale root scale_type = []) =
   (scale_type \<notin> {''Major'', ''Natural Minor'', ''Harmonic Minor'', ''Pentatonic''})"
  by (simp add: get_scale_def MAJOR_SCALE_def NATURAL_MINOR_SCALE_def
      HARMONIC_MINOR_SCALE_def PENTATONIC_SCALE_def)

section \<open>The note-state tracker\<close>

text \<open>
  Pressing again a note that is already held: the held notes stay as they are, and the
  scale root is written again when that note is the only one held, because line 249
  tests the size of the set after the insertion.
\<close>

lemma repress_held_note:
  assumes "reachable s" and "n \<in> pressed_midi_notes s"
    and "status_byte AND 0xF0 = 0x90" and "velocity > 0"
  shows "\<exists>note_name. handle_midi_event s (status_byte, n, velocity) =
     Inr (s\<lparr>pressed_circle_notes := insert note_name (pressed_circle_notes s),
            scale_root := (if pressed_midi_notes s = {n} then Some (n mod 12)
                           else scale_root s)\<rparr>)"
proof -
  obtain note_name where nm: "note_name_of n = Inr note_name"
    using note_name_of_total by blast
  have inv: "tracker_invariant s"
    using assms(1) by (rule reachable_invariant)
  have fin: "finite (pressed_midi_notes s)" and act: "active_sounds s = pressed_midi_notes s"
    using inv by (simp_all add: tracker_invariant_def)
  have one: "(card (pressed_midi_notes s) = 1) = (pressed_midi_notes s = {n})"
    using assms(2) fin by (auto simp: card_1_singleton_iff)
  have "handle_midi_event s (status_byte, n, velocity) =
     Inr (s\<lparr>pressed_circle_notes := insert note_name (pressed_circle_notes s),
            scale_root := (if pressed_midi_notes s = {n} then Some (n mod 12)
                           else scale_root s)\<rparr>)"
    using assms(2) act one
    by (simp add: handle_note_on [OF assms(3) assms(4) nm] insert_absorb)
  then show ?thesis by blast
qed

text \<open>
  Claim C2 says that a note-on for a note already held leaves the held notes and the
  scale root unchanged, also when that note is the only one held and the scale root
  comes from an earlier first note. The program at that input: after note-on 60,
  note-on 62 and note-off 60 the held notes are {62} and the scale root is 0, the
  pitch class of 60; a second note-on for 62 sets the scale root to 2.
\<close>

theorem repress_overwrites_scale_root:
  "handle_midi_events initial [(0x90, 60, 100), (0x90, 62, 100), (0x80, 60, 0)] =
     Inr \<lparr>pressed_midi_notes = {62}, pressed_circle_notes = {''D''},
          active_sounds = {62}, scale_root = Some 0\<rparr> \<and>
   reachable \<lparr>pressed_midi_notes = {62}, pressed_circle_notes = {''D''},
          active_sounds = {62}, scale_root = Some 0\<rparr> \<and>
   60 mod 12 \<noteq> (62 :: int) mod 12 \<and>
   handle_midi_event \<lparr>pressed_midi_notes = {62}, pressed_circle_notes = {''D''},
          active_sounds = {62}, scale_root = Some 0\<rparr> (0x90, 62, 100) =
     Inr \<lparr>pressed_midi_notes = {62}, pressed_circle_notes = {''D''},
          active_sounds = {62}, scale_root = Some 2\<rparr>"
proof -
  have run: "handle_midi_events initial [(0x90, 60, 100), (0x90, 62, 100), (0x80, 60, 0)] =
     Inr \<lparr>pressed_midi_notes = {62}, pressed_circle_notes = {''D''},
          active_sounds = {62}, scale_root = Some 0\<rparr>"
    by code_simp
  have reach: "reachable \<lparr>pressed_midi_notes = {62}, pressed_circle_notes = {''D''},
          active_sounds = {62}, scale_root = Some 0\<rparr>"
    using reachable.start run by (rule reachable_run)
  have again: "handle_midi_event \<lparr>pressed_midi_notes = {62}, pressed_circle_notes = {''D''},
          active_sounds = {62}, scale_root = Some 0\<rparr> (0x90, 62, 100) =
     Inr \<lparr>pressed_midi_notes = {62}, pressed_circle_notes = {''D''},
          active_sounds = {62}, scale_root = Some 2\<rparr>"
    by code_simp
  show ?thesis using run reach again by simp
qed

text \<open>
  Claim C8. In every state and for every note, a note-on event with velocity 0 gives
  exactly the result of a note-off event for the same note, whatever the channel of
  either event and the release velocity of the note-off.
\<close>

theorem velocity_zero_note_on_is_note_off:
  assumes "on_status AND 0xF0 = 0x90" and "off_status AND 0xF0 = 0x80"
  shows "handle_midi_event s (on_status, n, 0) = handle_midi_event s (off_status, n, velocity)"
proof -
  obtain note_name where nm: "note_name_of n = Inr note_name"
    using note_name_of_total by blast
  have "handle_midi_event s (on_status, n, 0) =
     Inr \<lparr>pressed_midi_notes = pressed_midi_notes s - {n},
          pressed_circle_notes = pressed_circle_notes s - {note_name},
          active_sounds = active_sounds s - {n},
          scale_root = (if card (pressed_midi_notes s - {n}) = 0 then None
                        else scale_root s)\<rparr>"
    using assms(1) nm by (intro handle_note_off) simp_all
  moreover have "handle_midi_event s (off_status, n, velocity) =
     Inr \<lparr>pressed_midi_notes = pressed_midi_notes s - {n},
          pressed_circle_notes = pressed_circle_notes s - {note_name},
          active_sounds = active_sounds s - {n},
          scale_root = (if card (pressed_midi_notes s - {n}) = 0 then None
                        else scale_root s)\<rparr>"
    using assms(2) nm by (intro handle_note_off) simp_all
  ultimately show ?thesis by simp
qed

theorem velocity_zero_note_on_is_note_off_witness:
  "(0x91 :: int) AND 0xF0 = 0x90 \<and> (0x80 :: int) AND 0xF0 = 0x80 \<and>
   handle_midi_event \<lparr>pressed_midi_notes = {60, 64}, pressed_circle_notes = {''C'', ''E''},
       active_sounds = {60, 64}, scale_root = Some 0\<rparr> (0x91, 64, 0) =
   handle_midi_event \<lparr>pressed_midi_notes = {60, 64}, pressed_circle_notes = {''C'', ''E''},
       active_sounds = {60, 64}, scale_root = Some 0\<rparr> (0x80, 64, 64) \<and>
   handle_midi_event \<lparr>pressed_midi_notes = {60, 64}, pressed_circle_notes = {''C'', ''E''},
       active_sounds = {60, 64}, scale_root = Some 0\<rparr> (0x80, 64, 64) =
   Inr \<lparr>pressed_midi_notes = {60}, pressed_circle_notes = {''C''},
       active_sounds = {60}, scale_root = Some 0\<rparr>"
proof -
  have a: "(0x91 :: int) AND 0xF0 = 0x90" by simp
  have b: "(0x80 :: int) AND 0xF0 = 0x80" by simp
  have c: "handle_midi_event \<lparr>pressed_midi_notes = {60, 64}, pressed_circle_notes = {''C'', ''E''},
       active_sounds = {60, 64}, scale_root = Some 0\<rparr> (0x80, 64, 64) =
   Inr \<lparr>pressed_midi_notes = {60}, pressed_circle_notes = {''C''},
       active_sounds = {60}, scale_root = Some 0\<rparr>"
    by code_simp
  from velocity_zero_note_on_is_note_off [OF a b, where n = 64 and velocity = 64 and
      s = "\<lparr>pressed_midi_notes = {60, 64}, pressed_circle_notes = {''C'', ''E''},
       active_sounds = {60, 64}, scale_root = Some 0\<rparr>"] a b c
  show ?thesis by simp
qed

text \<open>
  Claim C5 says that an event for a note outside 0 to 127 is rejected with a reported
  error and leaves the state unchanged. The handler has no check of the note's range:
  a note-off for note 200 reports no error, and while note 68 is held it removes the
  name G#/Ab from the set of pressed names. \<^verbatim>\<open>recognize_chord\<close> has no check
  either and names a chord over the note -1.
\<close>

theorem out_of_range_note_counterexample:
  "\<not> (0 \<le> (200 :: int) \<and> (200 :: int) \<le> 127) \<and>
   handle_midi_event initial (0x80, 200, 0) = Inr initial \<and>
   handle_midi_events initial [(0x90, 68, 100)] =
     Inr \<lparr>pressed_midi_notes = {68}, pressed_circle_notes = {''G#/Ab''},
          active_sounds = {68}, scale_root = Some 8\<rparr> \<and>
   handle_midi_event \<lparr>pressed_midi_notes = {68}, pressed_circle_notes = {''G#/Ab''},
          active_sounds = {68}, scale_root = Some 8\<rparr> (0x80, 200, 0) =
     Inr \<lparr>pressed_midi_notes = {68}, pressed_circle_notes = {},
          active_sounds = {68}, scale_root = Some 8\<rparr> \<and>
   recognize_chord {- 1, 3, 6} = Inr (Some (''B Major'', 11, ''Major''))"
proof -
  have a: "handle_midi_event initial (0x80, 200, 0) = Inr initial"
    by code_simp
  have b: "handle_midi_events initial [(0x90, 68, 100)] =
     Inr \<lparr>pressed_midi_notes = {68}, pressed_circle_notes = {''G#/Ab''},
          active_sounds = {68}, scale_root = Some 8\<rparr>"
    by code_simp
  have c: "handle_midi_event \<lparr>pressed_midi_notes = {68}, pressed_circle_notes = {''G#/Ab''},
          active_sounds = {68}, scale_root = Some 8\<rparr> (0x80, 200, 0) =
     Inr \<lparr>pressed_midi_notes = {68}, pressed_circle_notes = {},
          active_sounds = {68}, scale_root = Some 8\<rparr>"
    by code_simp
  have d: "recognize_chord {- 1, 3, 6} = Inr (Some (''B Major'', 11, ''Major''))"
    by code_simp
  show ?thesis using a b c d by simp
qed

text \<open>
  Claim C5, amended. In every reachable state a note outside 0 to 127 is not held.
  A note-off, or a note-on with velocity 0, for such a note reports no error and
  leaves the held notes, the playing sounds and the scale root unchanged; it discards
  the name of the note's own pitch class from the set of pressed names and changes
  nothing else. A note-on with velocity above 0 for such a note raises
  \<^verbatim>\<open>KeyError\<close> at the lookup in \<^verbatim>\<open>note_sounds\<close>, which nothing catches.
  \<^verbatim>\<open>recognize_chord\<close> reports no error on any set of notes, in range or not.
\<close>

theorem out_of_range_note_not_validated:
  assumes "reachable s" and "n < 0 \<or> 127 < n"
  shows "n \<notin> pressed_midi_notes s \<and>
    (\<exists>note_name.
       note_name_of n = Inr note_name \<and>
       (status_byte AND 0xF0 = 0x80 \<or> (status_byte AND 0xF0 = 0x90 \<and> velocity = 0) \<longrightarrow>
          handle_midi_event s (status_byte, n, velocity) =
            Inr \<lparr>pressed_midi_notes = pressed_midi_notes s,
                 pressed_circle_notes = pressed_circle_notes s - {note_name},
                 active_sounds = active_sounds s,
                 scale_root = scale_root s\<rparr>)) \<and>
    (status_byte AND 0xF0 = 0x90 \<and> velocity > 0 \<longrightarrow>
       handle_midi_event s (status_byte, n, velocity) = Inl KeyError) \<and>
    (\<forall>held. \<exists>result. recognize_chord held = Inr result)"
proof -
  obtain note_name where nm: "note_name_of n = Inr note_name"
    using note_name_of_total by blast
  have inv: "tracker_invariant s"
    using assms(1) by (rule reachable_invariant)
  have not_held: "n \<notin> pressed_midi_notes s"
    using inv assms(2) by (auto simp: tracker_invariant_def)
  have act: "active_sounds s = pressed_midi_notes s"
    and root: "(scale_root s = None) = (pressed_midi_notes s = {})"
    and fin: "finite (pressed_midi_notes s)"
    using inv by (simp_all add: tracker_invariant_def)
  have off: "handle_midi_event s (status_byte, n, velocity) =
            Inr \<lparr>pressed_midi_notes = pressed_midi_notes s,
                 pressed_circle_notes = pressed_circle_notes s - {note_name},
                 active_sounds = active_sounds s,
                 scale_root = scale_root s\<rparr>"
    if "status_byte AND 0xF0 = 0x80 \<or> (status_byte AND 0xF0 = 0x90 \<and> velocity = 0)"
    using not_held act root fin
    by (cases "pressed_midi_notes s = {}") (simp_all add: handle_note_off [OF that nm])
  have on: "handle_midi_event s (status_byte, n, velocity) = Inl KeyError"
    if "status_byte AND 0xF0 = 0x90 \<and> velocity > 0"
    using that not_held act assms(2) nm by (auto simp: handle_note_on)
  have total: "\<exists>result. recognize_chord held = Inr result" for held
  proof -
    obtain root_name where "note_name_of (Min held) = Inr root_name"
      using note_name_of_total by blast
    then show ?thesis by (simp add: recognize_chord_eq)
  qed
  have named: "\<exists>note_name.
       note_name_of n = Inr note_name \<and>
       (status_byte AND 0xF0 = 0x80 \<or> (status_byte AND 0xF0 = 0x90 \<and> velocity = 0) \<longrightarrow>
          handle_midi_event s (status_byte, n, velocity) =
            Inr \<lparr>pressed_midi_notes = pressed_midi_notes s,
                 pressed_circle_notes = pressed_circle_notes s - {note_name},
                 active_sounds = active_sounds s,
                 scale_root = scale_root s\<rparr>)"
    using nm off by (intro exI [of _ note_name]) simp
  show ?thesis
    using not_held named on total by blast
qed

theorem out_of_range_note_not_validated_witness:
  "reachable \<lparr>pressed_midi_notes = {68}, pressed_circle_notes = {''G#/Ab''},
          active_sounds = {68}, scale_root = Some 8\<rparr> \<and>
   ((200 :: int) < 0 \<or> 127 < (200 :: int)) \<and>
   (0x80 :: int) AND 0xF0 = 0x80 \<and>
   (0x90 :: int) AND 0xF0 = 0x90 \<and>
   note_name_of 200 = Inr ''G#/Ab'' \<and>
   handle_midi_event \<lparr>pressed_midi_notes = {68}, pressed_circle_notes = {''G#/Ab''},
          active_sounds = {68}, scale_root = Some 8\<rparr> (0x80, 200, 0) =
     Inr \<lparr>pressed_midi_notes = {68}, pressed_circle_notes = {},
          active_sounds = {68}, scale_root = Some 8\<rparr> \<and>
   handle_midi_event \<lparr>pressed_midi_notes = {68}, pressed_circle_notes = {''G#/Ab''},
          active_sounds = {68}, scale_root = Some 8\<rparr> (0x90, 200, 100) = Inl KeyError \<and>
   (\<exists>result. recognize_chord {- 1, 3, 6} = Inr result)"
proof -
  let ?s = "\<lparr>pressed_midi_notes = {68}, pressed_circle_notes = {''G#/Ab''},
          active_sounds = {68}, scale_root = Some 8\<rparr>"
  have run: "handle_midi_events initial [(0x90, 68, 100)] = Inr ?s"
    by code_simp
  have reach: "reachable ?s"
    using reachable.start run by (rule reachable_run)
  have range: "(200 :: int) < 0 \<or> 127 < (200 :: int)" by simp
  have a: "(0x80 :: int) AND 0xF0 = 0x80" by simp
  have b: "(0x90 :: int) AND 0xF0 = 0x90" by simp
  have name: "note_name_of 200 = Inr ''G#/Ab''" by code_simp
  from out_of_range_note_not_validated [OF reach range, where status_byte = "0x80" and velocity = 0]
  have off: "handle_midi_event ?s (0x80, 200, 0) =
     Inr \<lparr>pressed_midi_notes = {68}, pressed_circle_notes = {},
          active_sounds = {68}, scale_root = Some 8\<rparr>"
    using a name by auto
  from out_of_range_note_not_validated [OF reach range, where status_byte = "0x90" and velocity = 100]
  have on: "handle_midi_event ?s (0x90, 200, 100) = Inl KeyError"
    using b by simp
  from out_of_range_note_not_validated [OF reach range]
  have chord: "\<exists>result. recognize_chord {- 1, 3, 6} = Inr result"
    by blast
  show ?thesis using reach range a b name off on chord by blast
qed

end
